theory Spec2Isabelle
  imports Complex_Main
begin

section \<open>Speed factor and atempo filter chain of \<open>video_translate.py\<close>\<close>

text \<open>
  Finite Python floats are modelled as HOL reals. The only arithmetic the planner performs
  on the remaining factor is a division by \<open>2.0\<close> or by \<open>0.5\<close>; a duration that a probe
  could not read is Python's \<open>None\<close>, here \<open>None\<close> of \<open>real option\<close>. The float \<open>+inf\<close>
  has a model of its own, for the two loops of the planner.
\<close>

subsection \<open>\<open>calculate_optimal_speed\<close> (lines 116-124)\<close>

text \<open>
  \<^verbatim>\<open>if video_duration and audio_duration and audio_duration > 0:
      return audio_duration / video_duration
  return 1.5\<close>
  Python truthiness of an optional float: \<open>None\<close> and \<open>0.0\<close> are false.
\<close>

definition calculate_optimal_speed :: "real option \<Rightarrow> real option \<Rightarrow> real" where
  "calculate_optimal_speed video_duration audio_duration =
     (case video_duration of
        None \<Rightarrow> 3 / 2
      | Some v \<Rightarrow>
          (case audio_duration of
             None \<Rightarrow> 3 / 2
           | Some a \<Rightarrow> if v \<noteq> 0 \<and> a \<noteq> 0 \<and> a > 0 then a / v else 3 / 2))"

subsection \<open>The atempo chain built in \<open>main\<close> (lines 242-268)\<close>

text \<open>
  A stage \<open>"atempo=x"\<close> of the chain is modelled by its multiplier \<open>x\<close>; the filter string
  is the stages joined by commas.

  Lines 247-249: \<^verbatim>\<open>while remaining_factor > 2.0: filter_chain.append("atempo=2.0");
  remaining_factor /= 2.0\<close>. The function returns the remaining factor and the chain at the
  exit of the loop.
\<close>

function fast_loop :: "real \<Rightarrow> real list \<Rightarrow> real \<times> real list" where
  "fast_loop remaining_factor filter_chain =
     (if remaining_factor > 2 then fast_loop (remaining_factor / 2) (filter_chain @ [2])
      else (remaining_factor, filter_chain))"
  by pat_completeness auto
termination
proof (relation "measure (\<lambda>(r, c). nat \<lfloor>r\<rfloor>)")
  show "wf (measure (\<lambda>(r::real, c::real list). nat \<lfloor>r\<rfloor>))" by simp
next
  fix remaining_factor :: real and filter_chain :: "real list"
  assume gt: "2 < remaining_factor"
  have "remaining_factor / 2 \<le> remaining_factor - 1" using gt by simp
  then have "\<lfloor>remaining_factor / 2\<rfloor> \<le> \<lfloor>remaining_factor - 1\<rfloor>" by (rule floor_mono)
  then have "\<lfloor>remaining_factor / 2\<rfloor> < \<lfloor>remaining_factor\<rfloor>" by simp
  moreover have "0 < \<lfloor>remaining_factor\<rfloor>" using gt by (simp add: floor_less_iff less_floor_iff)
  ultimately show "((remaining_factor / 2, filter_chain @ [2]), (remaining_factor, filter_chain))
      \<in> measure (\<lambda>(r, c). nat \<lfloor>r\<rfloor>)"
    by simp
qed

text \<open>
  Lines 259-261: \<^verbatim>\<open>while remaining_factor < 0.5: filter_chain.append("atempo=0.5");
  remaining_factor /= 0.5\<close>. On a factor that is zero or negative the loop never exits, so
  the model is partial: \<open>None\<close> stands for a loop that does not return.
\<close>

partial_function (option) slow_loop :: "real \<Rightarrow> real list \<Rightarrow> (real \<times> real list) option" where
  "slow_loop remaining_factor filter_chain =
     (if remaining_factor < 1 / 2
      then slow_loop (remaining_factor / (1 / 2)) (filter_chain @ [1 / 2])
      else Some (remaining_factor, filter_chain))"

text \<open>
  Lines 242-268 as a whole: the list of stage multipliers that \<open>filter_str\<close> is made of.
  \<open>main\<close> runs this code only when \<open>speed_factor != 1.0\<close> (line 234).
\<close>

definition build_filter_chain :: "real \<Rightarrow> real list option" where
  "build_filter_chain speed_factor =
     (if speed_factor > 2 then
        (case fast_loop speed_factor [] of
           (remaining_factor, filter_chain) \<Rightarrow>
             Some (if remaining_factor > 1 then filter_chain @ [remaining_factor]
                   else filter_chain))
      else if speed_factor < 1 / 2 then
        (case slow_loop speed_factor [] of
           None \<Rightarrow> None
         | Some (remaining_factor, filter_chain) \<Rightarrow>
             Some (if remaining_factor < 1 then filter_chain @ [remaining_factor]
                   else filter_chain))
      else Some [speed_factor])"

subsection \<open>The two loops on a float that may be infinite\<close>

text \<open>
  A Python float that is greater than zero is a finite value or \<open>+inf\<close> (the quotient of
  line 123 overflows to it, and \<open>float\<close> reads it from \<open>inf\<close> or \<open>1e400\<close>). Every
  comparison \<open>+inf > c\<close> with a finite \<open>c\<close> is true, \<open>+inf < c\<close> is false, and \<open>+inf / c\<close>
  is \<open>+inf\<close> for the two positive constants of the loops.
\<close>

datatype pyfloat = Finite real | PosInf

fun float_gt :: "pyfloat \<Rightarrow> real \<Rightarrow> bool" where
  "float_gt (Finite x) c = (x > c)"
| "float_gt PosInf c = True"

fun float_lt :: "pyfloat \<Rightarrow> real \<Rightarrow> bool" where
  "float_lt (Finite x) c = (x < c)"
| "float_lt PosInf c = False"

fun float_div :: "pyfloat \<Rightarrow> real \<Rightarrow> pyfloat" where
  "float_div (Finite x) c = Finite (x / c)"
| "float_div PosInf c = PosInf"

text \<open>
  Lines 247-249 and 259-261 again, on a float that may be \<open>+inf\<close>. On finite values they
  are the two loops above (shown further down).
\<close>

partial_function (option) fast_loop_float ::
  "pyfloat \<Rightarrow> real list \<Rightarrow> (pyfloat \<times> real list) option" where
  "fast_loop_float remaining_factor filter_chain =
     (if float_gt remaining_factor 2
      then fast_loop_float (float_div remaining_factor 2) (filter_chain @ [2])
      else Some (remaining_factor, filter_chain))"

partial_function (option) slow_loop_float ::
  "pyfloat \<Rightarrow> real list \<Rightarrow> (pyfloat \<times> real list) option" where
  "slow_loop_float remaining_factor filter_chain =
     (if float_lt remaining_factor (1 / 2)
      then slow_loop_float (float_div remaining_factor (1 / 2)) (filter_chain @ [1 / 2])
      else Some (remaining_factor, filter_chain))"

section \<open>The pipeline of \<open>main\<close> (lines 154-362)\<close>

subsection \<open>Files, external tools and their outcomes\<close>

text \<open>
  A Python \<open>str\<close> is a list of Unicode code points. A file is the list of values it holds
  (the code points of a UTF-8 text file). A path is either inside the temporary directory of
  line 164, which is fresh, or one given by its name outside of it.
\<close>

type_synonym str = "nat list"
type_synonym content = "nat list"

datatype path = InTmpdir string | Outside string

text \<open>The exceptions that can leave \<open>main\<close>.\<close>

datatype error = CalledProcessError | TypeError | FileNotFoundError | GTTSError

text \<open>
  The outcome of one \<open>subprocess.run(['ffmpeg', '-y', ...], check=True)\<close>: exit status zero
  with the content written to the output path, or a non-zero exit status (which
  \<open>check=True\<close> turns into \<open>CalledProcessError\<close>) with whatever the tool left at the output
  path (\<open>None\<close>: it wrote nothing there).
\<close>

datatype proc_result = Exit0 content | NonZero "content option"

text \<open>What the run does to the outside world, in order.\<close>

datatype event =
    Extract string
  | Synthesize str
  | Atempo "real list" "content option"
  | Rubberband real "content option"
  | Trim real "content option"
  | Mux string "content option" string
  | PrintInstructions

record state =
  files :: "path \<rightharpoonup> content"
  trace :: "event list"

text \<open>
  The command line and the answers of the outside world, one field for each place of the
  source that asks: \<open>None\<close> of a translation or a synthesis is an exception raised by the
  service, \<open>None\<close> of a probe is \<open>get_video_duration\<close> or \<open>get_audio_duration\<close> returning
  \<open>None\<close> (lines 94-114). An answer is not tied to what the tool was given: every
  combination of answers is a run.
\<close>

record env =
  input_video :: string
  output_video :: string
  thai_file :: "string option"
  ffmpeg_extract :: proc_result
  funasr :: "str option"
  google_zh_en :: "str option"
  google_en_th :: "str option"
  ffprobe_video :: "real option"
  gtts_first :: "content option"
  gtts_retry :: "content option"
  ffprobe_tts :: "real option"
  ffmpeg_atempo :: proc_result
  ffprobe_adjusted :: "real option"
  ffmpeg_trim :: proc_result
  ffprobe_truncated :: "real option"
  ffmpeg_rubberband :: proc_result
  ffprobe_rubberband :: "real option"
  ffmpeg_mux :: proc_result

datatype status = Completed | Returned | Raised error

definition log_event :: "event \<Rightarrow> state \<Rightarrow> state" where
  "log_event ev st = st\<lparr>trace := trace st @ [ev]\<rparr>"

text \<open>
  \<open>os.rename\<close> and \<open>os.remove\<close> with their POSIX behaviour: a rename replaces an existing
  destination, and both raise \<open>FileNotFoundError\<close> on a missing source.
\<close>

definition os_rename :: "path \<Rightarrow> path \<Rightarrow> state \<Rightarrow> error option \<times> state" where
  "os_rename src dst st =
     (case files st src of
        None \<Rightarrow> (Some FileNotFoundError, st)
      | Some c \<Rightarrow> (None, st\<lparr>files := ((files st)(src := None))(dst \<mapsto> c)\<rparr>))"

definition os_remove :: "path \<Rightarrow> state \<Rightarrow> error option \<times> state" where
  "os_remove p st =
     (case files st p of
        None \<Rightarrow> (Some FileNotFoundError, st)
      | Some c \<Rightarrow> (None, st\<lparr>files := (files st)(p := None)\<rparr>))"

text \<open>The boolean is \<open>False\<close> when \<open>subprocess.run\<close> raises \<open>CalledProcessError\<close>.\<close>

definition run_ffmpeg :: "proc_result \<Rightarrow> path \<Rightarrow> state \<Rightarrow> bool \<times> state" where
  "run_ffmpeg r out st =
     (case r of
        Exit0 c \<Rightarrow> (True, st\<lparr>files := (files st)(out \<mapsto> c)\<rparr>)
      | NonZero None \<Rightarrow> (False, st)
      | NonZero (Some partial) \<Rightarrow> (False, st\<lparr>files := (files st)(out \<mapsto> partial)\<rparr>))"

definition audio_wav :: path where "audio_wav = InTmpdir ''audio.wav''"
definition thai_mp3 :: path where "thai_mp3 = InTmpdir ''thai.mp3''"
definition temp_mp3 :: path where "temp_mp3 = InTmpdir (''thai.mp3'' @ ''.temp'')"
definition temp_truncate :: path where "temp_truncate = InTmpdir (''thai.mp3'' @ ''.truncate'')"
definition manual_file :: path where "manual_file = Outside ''english_for_translation.txt''"

subsection \<open>Extraction, transcription, translation (lines 33-79, 131-152)\<close>

definition extract_audio :: "env \<Rightarrow> state \<Rightarrow> bool \<times> state" where
  "extract_audio env st =
     run_ffmpeg (ffmpeg_extract env) audio_wav (log_event (Extract (input_video env)) st)"

text \<open>\<open>transcribe_audio\<close> returns \<open>""\<close> on an empty result and on any exception.\<close>

definition transcribe_audio :: "env \<Rightarrow> str" where
  "transcribe_audio env = (case funasr env of None \<Rightarrow> [] | Some t \<Rightarrow> t)"

text \<open>Both translation functions return their input on any exception.\<close>

definition translate_text :: "env \<Rightarrow> str \<Rightarrow> str" where
  "translate_text env txt = (case google_zh_en env of None \<Rightarrow> txt | Some t \<Rightarrow> t)"

definition translate_english_to_thai_google :: "env \<Rightarrow> str \<Rightarrow> str" where
  "translate_english_to_thai_google env english_text =
     (case google_en_th env of None \<Rightarrow> english_text | Some t \<Rightarrow> t)"

subsection \<open>The Thai text (lines 195-212)\<close>

text \<open>Line 204, \<open>re.search\<close> for one character of the class U+0E00 to U+0E7F: the code points
  3584 to 3711.\<close>

definition is_thai :: "nat \<Rightarrow> bool" where
  "is_thai c = (3584 \<le> c \<and> c \<le> 3711)"

definition has_thai :: "str \<Rightarrow> bool" where
  "has_thai t = list_ex is_thai t"

text \<open>\<open>str.strip()\<close> removes the leading and trailing code points for which \<open>isspace\<close> holds.\<close>

definition isspace :: "nat \<Rightarrow> bool" where
  "isspace c = ((9 \<le> c \<and> c \<le> 13) \<or> (28 \<le> c \<and> c \<le> 32) \<or> c = 133 \<or> c = 160 \<or> c = 5760
      \<or> (8192 \<le> c \<and> c \<le> 8202) \<or> c = 8232 \<or> c = 8233 \<or> c = 8239 \<or> c = 8287 \<or> c = 12288)"

definition strip :: "str \<Rightarrow> str" where
  "strip t = rev (dropWhile isspace (rev (dropWhile isspace t)))"

text \<open>
  Line 195, \<open>args.thai_file and os.path.exists(args.thai_file)\<close>: the manual translation, when
  the option is given, is not the empty string and names an existing file.
\<close>

definition manual_translation :: "env \<Rightarrow> state \<Rightarrow> content option" where
  "manual_translation env st =
     (case thai_file env of
        None \<Rightarrow> None
      | Some p \<Rightarrow> if p \<noteq> [] then files st (Outside p) else None)"

text \<open>
  The result is \<open>None\<close> when \<open>main\<close> returns at line 212, after writing the English text to
  \<open>english_for_translation.txt\<close> and printing the instructions of lines 205-211.
\<close>

definition thai_translation :: "env \<Rightarrow> str \<Rightarrow> state \<Rightarrow> str option \<times> state" where
  "thai_translation env english_text st =
     (case manual_translation env st of
        Some c \<Rightarrow> (Some (strip c), st)
      | None \<Rightarrow>
          (let thai_text = translate_english_to_thai_google env english_text in
           if \<not> has_thai thai_text
           then (None, log_event PrintInstructions
                         (st\<lparr>files := (files st)(manual_file \<mapsto> english_text)\<rparr>))
           else (Some thai_text, st)))"

subsection \<open>Synthesis (lines 81-92)\<close>

text \<open>A second failure of gTTS, in the \<open>except\<close> branch, is not caught.\<close>

definition text_to_speech :: "env \<Rightarrow> str \<Rightarrow> path \<Rightarrow> state \<Rightarrow> error option \<times> state" where
  "text_to_speech env txt tts_path st =
     (let st1 = log_event (Synthesize txt) st in
      case gtts_first env of
        Some c \<Rightarrow> (None, st1\<lparr>files := (files st1)(tts_path \<mapsto> c)\<rparr>)
      | None \<Rightarrow>
          (let st2 = log_event (Synthesize txt) st1 in
           case gtts_retry env of
             Some c \<Rightarrow> (None, st2\<lparr>files := (files st2)(tts_path \<mapsto> c)\<rparr>)
           | None \<Rightarrow> (Some GTTSError, st2)))"

subsection \<open>Speed adjustment (lines 234-342)\<close>

text \<open>
  An f-string \<open>{d:.1f}\<close> raises \<open>TypeError\<close> when \<open>d\<close> is \<open>None\<close>; it is written below as the
  \<open>None\<close> case of the duration printed. The other prints of \<open>main\<close> format strings, word counts
  and floats that are never \<open>None\<close>; they are left out.

  Lines 293-316, the truncation: the \<open>except\<close> branch renames the speed-adjusted file back.
\<close>

definition truncate_audio :: "env \<Rightarrow> real \<Rightarrow> state \<Rightarrow> error option \<times> state" where
  "truncate_audio env video_duration st =
     (case os_rename thai_mp3 temp_truncate st of
        (Some e, st1) \<Rightarrow> (Some e, st1)
      | (None, st1) \<Rightarrow>
          (case run_ffmpeg (ffmpeg_trim env) thai_mp3
                  (log_event (Trim video_duration (files st1 temp_truncate)) st1) of
             (True, st2) \<Rightarrow>
               (case os_remove temp_truncate st2 of
                  (Some e, st3) \<Rightarrow> (Some e, st3)
                | (None, st3) \<Rightarrow>
                    (case ffprobe_truncated env of
                       None \<Rightarrow> (Some TypeError, st3)
                     | Some final_audio_duration \<Rightarrow> (None, st3)))
           | (False, st2) \<Rightarrow> os_rename temp_truncate thai_mp3 st2))"

text \<open>Lines 281-316: the reprobe after a successful atempo run, the check and the truncation.\<close>

definition verify_final_duration :: "env \<Rightarrow> real option \<Rightarrow> state \<Rightarrow> error option \<times> state" where
  "verify_final_duration env video_duration st =
     (case ffprobe_adjusted env of
        None \<Rightarrow> (Some TypeError, st)
      | Some final_audio_duration \<Rightarrow>
          (case video_duration of
             None \<Rightarrow> (None, st)
           | Some v \<Rightarrow>
               if final_audio_duration \<noteq> 0 \<and> v \<noteq> 0 \<and> \<bar>final_audio_duration - v\<bar> > 1
               then (if final_audio_duration > v + 1 then truncate_audio env v st
                     else (None, st))
               else (None, st)))"

text \<open>Lines 322-340: the rubberband fallback, entered when the atempo run failed.\<close>

definition rubberband_fallback :: "env \<Rightarrow> real \<Rightarrow> state \<Rightarrow> error option \<times> state" where
  "rubberband_fallback env speed_factor st =
     (case run_ffmpeg (ffmpeg_rubberband env) thai_mp3
             (log_event (Rubberband speed_factor (files st temp_mp3)) st) of
        (True, st1) \<Rightarrow>
          (case os_remove temp_mp3 st1 of
             (Some e, st2) \<Rightarrow> (Some e, st2)
           | (None, st2) \<Rightarrow>
               (case ffprobe_rubberband env of
                  None \<Rightarrow> (Some TypeError, st2)
                | Some final_audio_duration \<Rightarrow> (None, st2)))
      | (False, st1) \<Rightarrow> os_rename temp_mp3 thai_mp3 st1)"

text \<open>Lines 270-340: the atempo run on the renamed file and what follows it.\<close>

definition apply_filter ::
  "env \<Rightarrow> real list \<Rightarrow> real \<Rightarrow> real option \<Rightarrow> state \<Rightarrow> error option \<times> state" where
  "apply_filter env filter_chain speed_factor video_duration st =
     (case run_ffmpeg (ffmpeg_atempo env) thai_mp3
             (log_event (Atempo filter_chain (files st temp_mp3)) st) of
        (True, st1) \<Rightarrow>
          (case os_remove temp_mp3 st1 of
             (Some e, st2) \<Rightarrow> (Some e, st2)
           | (None, st2) \<Rightarrow> verify_final_duration env video_duration st2)
      | (False, st1) \<Rightarrow> rubberband_fallback env speed_factor st1)"

text \<open>
  Lines 234-342. The result is \<open>None\<close> when the loop of lines 259-261 does not return.
\<close>

definition adjust_speed ::
  "env \<Rightarrow> real \<Rightarrow> real option \<Rightarrow> state \<Rightarrow> (error option \<times> state) option" where
  "adjust_speed env speed_factor video_duration st =
     (if speed_factor \<noteq> 1 then
        (case os_rename thai_mp3 temp_mp3 st of
           (Some e, st1) \<Rightarrow> Some (Some e, st1)
         | (None, st1) \<Rightarrow>
             (case build_filter_chain speed_factor of
                None \<Rightarrow> None
              | Some filter_chain \<Rightarrow>
                  Some (apply_filter env filter_chain speed_factor video_duration st1)))
      else Some (None, st))"

text \<open>Step 5, lines 220-345.\<close>

definition synthesize_and_adjust ::
  "env \<Rightarrow> str \<Rightarrow> state \<Rightarrow> (error option \<times> state) option" where
  "synthesize_and_adjust env thai_text st =
     (let video_duration = ffprobe_video env in
      case video_duration of
        None \<Rightarrow> Some (Some TypeError, st)
      | Some v \<Rightarrow>
          (case text_to_speech env thai_text thai_mp3 st of
             (Some e, st1) \<Rightarrow> Some (Some e, st1)
           | (None, st1) \<Rightarrow>
               (let audio_duration = ffprobe_tts env in
                case audio_duration of
                  None \<Rightarrow> Some (Some TypeError, st1)
                | Some a \<Rightarrow>
                    adjust_speed env (calculate_optimal_speed video_duration audio_duration)
                      video_duration st1)))"

subsection \<open>Muxing (lines 126-129) and \<open>main\<close>\<close>

definition replace_audio :: "env \<Rightarrow> state \<Rightarrow> bool \<times> state" where
  "replace_audio env st =
     run_ffmpeg (ffmpeg_mux env) (Outside (output_video env))
       (log_event (Mux (input_video env) (files st thai_mp3) (output_video env)) st)"

text \<open>The body of the \<open>with\<close> block, lines 165-362.\<close>

definition main_body :: "env \<Rightarrow> state \<Rightarrow> (status \<times> state) option" where
  "main_body env st =
     (case extract_audio env st of
        (False, st1) \<Rightarrow> Some (Raised CalledProcessError, st1)
      | (True, st1) \<Rightarrow>
          (let chinese_text = transcribe_audio env;
               english_text = translate_text env chinese_text
           in case thai_translation env english_text st1 of
                (None, st2) \<Rightarrow> Some (Returned, st2)
              | (Some thai_text, st2) \<Rightarrow>
                  (case synthesize_and_adjust env thai_text st2 of
                     None \<Rightarrow> None
                   | Some (Some e, st3) \<Rightarrow> Some (Raised e, st3)
                   | Some (None, st3) \<Rightarrow>
                       (case replace_audio env st3 of
                          (False, st4) \<Rightarrow> Some (Raised CalledProcessError, st4)
                        | (True, st4) \<Rightarrow> Some (Completed, st4)))))"

text \<open>
  \<open>main\<close>: the temporary directory is empty at the start and is removed on every exit of the
  \<open>with\<close> block. The result is the way \<open>main\<close> ends, the files outside the temporary
  directory and the trace; \<open>None\<close> when \<open>main\<close> does not return.
\<close>

definition main ::
  "env \<Rightarrow> (string \<rightharpoonup> content) \<Rightarrow> (status \<times> (string \<rightharpoonup> content) \<times> event list) option" where
  "main env fs =
     (case main_body env
             \<lparr>files = (\<lambda>p. case p of InTmpdir n \<Rightarrow> None | Outside n \<Rightarrow> fs n), trace = []\<rparr> of
        None \<Rightarrow> None
      | Some (s, st) \<Rightarrow> Some (s, (\<lambda>n. files st (Outside n)), trace st))"


fun muxed_audio :: "event list \<Rightarrow> content option list" where
  "muxed_audio [] = []"
| "muxed_audio (Mux v a out # evs) = a # muxed_audio evs"
| "muxed_audio (ev # evs) = muxed_audio evs"

subsection \<open>A run on which everything succeeds\<close>

text \<open>
  A ten-second video whose synthesized Thai speech lasts twenty seconds: the speed factor is
  \<open>2.0\<close>, the chain is the single stage \<open>atempo=2.0\<close>. The runs evaluated further down
  change one answer of this one at a time.
\<close>

definition sample_env :: env where
  "sample_env =
     \<lparr>input_video = ''in.mp4'', output_video = ''out.mp4'', thai_file = None,
      ffmpeg_extract = Exit0 [1], funasr = Some [20320, 22909],
      google_zh_en = Some [72, 105], google_en_th = Some [3626, 3623, 3633],
      ffprobe_video = Some 10, gtts_first = Some [2], gtts_retry = None,
      ffprobe_tts = Some 20, ffmpeg_atempo = Exit0 [3], ffprobe_adjusted = Some 10,
      ffmpeg_trim = Exit0 [4], ffprobe_truncated = Some 10,
      ffmpeg_rubberband = Exit0 [5], ffprobe_rubberband = Some 10,
      ffmpeg_mux = Exit0 [6]\<rparr>"

section \<open>Properties of the loops\<close>

lemma fast_loop_unfold:
  "\<exists>k. fast_loop r c = (r / 2 ^ k, c @ replicate k 2) \<and> r / 2 ^ k \<le> 2
     \<and> (0 < k \<longrightarrow> 1 < r / 2 ^ k)"
proof (induction r c rule: fast_loop.induct)
  case (1 r c)
  show ?case
  proof (cases "2 < r")
    case True
    from 1 [OF True] obtain k where
      k: "fast_loop (r / 2) (c @ [2]) = (r / 2 / 2 ^ k, (c @ [2]) @ replicate k 2)"
        "r / 2 / 2 ^ k \<le> 2"
        "0 < k \<longrightarrow> 1 < r / 2 / 2 ^ k"
      by blast
    have eq: "r / 2 / 2 ^ k = r / 2 ^ Suc k" by simp
    have rep: "(c @ [2]) @ replicate k (2::real) = c @ replicate (Suc k) 2" by simp
    have a: "fast_loop r c = (r / 2 ^ Suc k, c @ replicate (Suc k) 2)"
      using True k(1) unfolding eq rep by simp
    have b: "1 < r / 2 ^ Suc k"
    proof (cases "0 < k")
      case True
      then show ?thesis using k(3) unfolding eq by blast
    next
      case False
      then have "k = 0" by simp
      then show ?thesis using \<open>2 < r\<close> by simp
    qed
    have c': "r / 2 ^ Suc k \<le> 2" using k(2) unfolding eq .
    show ?thesis using a b c' by blast
  next
    case False
    then have "fast_loop r c = (r / 2 ^ 0, c @ replicate 0 2)" by simp
    moreover have "r / 2 ^ 0 \<le> 2" using False by simp
    ultimately show ?thesis by blast
  qed
qed

lemma slow_loop_unfold:
  "0 < r \<Longrightarrow> 1 / 2 \<le> r * 2 ^ n \<Longrightarrow>
     \<exists>k\<le>n. slow_loop r c = Some (r * 2 ^ k, c @ replicate k (1 / 2)) \<and> 1 / 2 \<le> r * 2 ^ k
       \<and> (0 < k \<longrightarrow> r * 2 ^ k < 1)"
proof (induction n arbitrary: r c)
  case 0
  then have "slow_loop r c = Some (r * 2 ^ 0, c @ replicate 0 (1 / 2))"
    by (subst slow_loop.simps) simp
  then show ?case using 0 by auto
next
  case (Suc n)
  show ?case
  proof (cases "r < 1 / 2")
    case False
    then have "slow_loop r c = Some (r * 2 ^ 0, c @ replicate 0 (1 / 2))"
      by (subst slow_loop.simps) simp
    then show ?thesis using False by auto
  next
    case True
    have pos: "0 < r * 2" using Suc.prems(1) by simp
    have bound: "1 / 2 \<le> r * 2 * 2 ^ n" using Suc.prems(2) by (simp add: mult.assoc)
    from Suc.IH [OF pos bound, of "c @ [1 / 2]"] obtain k where
      k: "k \<le> n" "slow_loop (r * 2) (c @ [1 / 2]) = Some (r * 2 * 2 ^ k, (c @ [1 / 2]) @ replicate k (1 / 2))"
        "1 / 2 \<le> r * 2 * 2 ^ k" "0 < k \<longrightarrow> r * 2 * 2 ^ k < 1"
      by blast
    have eq: "r * 2 * 2 ^ k = r * 2 ^ Suc k" by simp
    have rep: "(c @ [1 / 2]) @ replicate k (1 / 2 :: real) = c @ replicate (Suc k) (1 / 2)" by simp
    have step: "slow_loop r c = slow_loop (r * 2) (c @ [1 / 2])"
      using True by (subst slow_loop.simps) simp
    have a: "slow_loop r c = Some (r * 2 ^ Suc k, c @ replicate (Suc k) (1 / 2))"
      using step k(2) unfolding eq rep by simp
    have b: "r * 2 ^ Suc k < 1"
    proof (cases "0 < k")
      case True
      then show ?thesis using k(4) unfolding eq by blast
    next
      case False
      then have "k = 0" by simp
      then show ?thesis using \<open>r < 1 / 2\<close> by simp
    qed
    have c': "1 / 2 \<le> r * 2 ^ Suc k" using k(3) unfolding eq .
    have "Suc k \<le> Suc n" using k(1) by simp
    then show ?thesis using a b c' by blast
  qed
qed

lemma slow_loop_reaches:
  assumes "0 < (r::real)"
  shows "\<exists>n. 1 / 2 \<le> r * 2 ^ n"
proof -
  obtain n where "1 / (2 * r) < 2 ^ n"
    using real_arch_pow [of 2 "1 / (2 * r)"] by auto
  then have "1 < 2 ^ n * (2 * r)" using assms by (simp add: pos_divide_less_eq)
  then have "1 / 2 \<le> r * 2 ^ n" by (simp add: mult.commute)
  then show ?thesis ..
qed

lemma slow_loop_total:
  assumes "0 < r"
  shows "\<exists>k. slow_loop r c = Some (r * 2 ^ k, c @ replicate k (1 / 2)) \<and> 1 / 2 \<le> r * 2 ^ k
       \<and> (0 < k \<longrightarrow> r * 2 ^ k < 1)"
proof -
  from slow_loop_reaches [OF assms] obtain n where "1 / 2 \<le> r * 2 ^ n" ..
  from slow_loop_unfold [OF assms this, of c] show ?thesis by blast
qed

section \<open>The speed factor\<close>

lemma calculate_optimal_speed_ratio:
  "v \<noteq> 0 \<Longrightarrow> 0 < a \<Longrightarrow> calculate_optimal_speed (Some v) (Some a) = a / v"
  by (simp add: calculate_optimal_speed_def)

text \<open>
  Claim C2, as stated, fails: a negative video duration with a positive audio duration gives
  the (negative) quotient, not \<open>1.5\<close>.
\<close>

theorem calculate_optimal_speed_negative_video:
  "calculate_optimal_speed (Some (- 1)) (Some 2) = - 2
     \<and> calculate_optimal_speed (Some (- 1)) (Some 2) \<noteq> 3 / 2"
  by (simp add: calculate_optimal_speed_def)

text \<open>
  Claim C2, amended. \<open>calculate_optimal_speed\<close> returns exactly \<open>1.5\<close> whenever either
  duration is absent (\<open>None\<close>) or zero, or the audio duration is negative. (A negative video
  duration alone does not select the default: line 118 tests the sign of the audio duration
  only.)
\<close>

theorem calculate_optimal_speed_default:
  assumes "video_duration = None \<or> audio_duration = None
             \<or> video_duration = Some 0 \<or> (\<exists>a. audio_duration = Some a \<and> a \<le> 0)"
  shows "calculate_optimal_speed video_duration audio_duration = 3 / 2"
  using assms by (auto simp: calculate_optimal_speed_def split: option.splits)

theorem calculate_optimal_speed_default_witness:
  "(\<exists>a::real. Some (- 3) = Some a \<and> a \<le> 0)
     \<and> calculate_optimal_speed (Some (- 1)) (Some (- 3)) = 3 / 2
     \<and> calculate_optimal_speed None (Some 20) = 3 / 2
     \<and> calculate_optimal_speed (Some 10) (Some 0) = 3 / 2"
  using calculate_optimal_speed_default [of "Some (- 1)" "Some (- 3)"]
    calculate_optimal_speed_default [of None "Some 20"]
    calculate_optimal_speed_default [of "Some 10" "Some 0"]
  by simp

section \<open>The filter chain\<close>

text \<open>
  The chain in closed form: \<open>k\<close> is the number of iterations of the loop that ran.
\<close>

lemma build_filter_chain_form:
  assumes "0 < f"
  shows "\<exists>k. build_filter_chain f =
            Some (if f > 2 then replicate k 2 @ [f / 2 ^ k]
                  else if f < 1 / 2 then replicate k (1 / 2) @ [f * 2 ^ k]
                  else [f])
          \<and> (2 < f \<longrightarrow> 0 < k \<and> 1 < f / 2 ^ k \<and> f / 2 ^ k \<le> 2)
          \<and> (f < 1 / 2 \<longrightarrow> 0 < k \<and> 1 / 2 \<le> f * 2 ^ k \<and> f * 2 ^ k < 1)"
proof -
  consider (fast) "2 < f" | (slow) "f < 1 / 2" | (single) "\<not> 2 < f" "\<not> f < 1 / 2" by blast
  then show ?thesis
  proof cases
    case fast
    from fast_loop_unfold [of f "[]"] obtain k where
      k: "fast_loop f [] = (f / 2 ^ k, [] @ replicate k 2)" "f / 2 ^ k \<le> 2"
         "0 < k \<longrightarrow> 1 < f / 2 ^ k"
      by blast
    have "0 < k"
    proof (rule ccontr)
      assume "\<not> 0 < k"
      then have "k = 0" by simp
      with k(2) fast show False by simp
    qed
    with k(3) have gt: "1 < f / 2 ^ k" by blast
    have "build_filter_chain f = Some (replicate k 2 @ [f / 2 ^ k])"
      using fast k(1) gt by (simp add: build_filter_chain_def)
    with fast \<open>0 < k\<close> gt k(2) show ?thesis by auto
  next
    case slow
    from slow_loop_total [OF assms, of "[]"] obtain k where
      k: "slow_loop f [] = Some (f * 2 ^ k, [] @ replicate k (1 / 2))" "1 / 2 \<le> f * 2 ^ k"
         "0 < k \<longrightarrow> f * 2 ^ k < 1"
      by blast
    have "0 < k"
    proof (rule ccontr)
      assume "\<not> 0 < k"
      then have "k = 0" by simp
      with k(2) slow show False by simp
    qed
    with k(3) have lt: "f * 2 ^ k < 1" by blast
    have "build_filter_chain f = Some (replicate k (1 / 2) @ [f * 2 ^ k])"
      using slow k(1) lt by (simp add: build_filter_chain_def)
    with slow \<open>0 < k\<close> lt k(2) show ?thesis by auto
  next
    case single
    then have "build_filter_chain f = Some [f]" by (simp add: build_filter_chain_def)
    with single show ?thesis by auto
  qed
qed

text \<open>
  Claim C1. For every speed factor in \<open>(0, \<infinity>)\<close> other than \<open>1.0\<close>, the code of lines
  242-268 returns a chain, and the product of its stage multipliers equals the factor: exactly
  over the reals, hence within the tolerance \<open>1e-6\<close>.
\<close>

theorem filter_chain_product:
  assumes "0 < f" and "f \<noteq> 1"
  shows "\<exists>chain. build_filter_chain f = Some chain \<and> prod_list chain = f
           \<and> \<bar>prod_list chain - f\<bar> \<le> 1 / 10 ^ 6"
proof -
  from build_filter_chain_form [OF assms(1)] obtain k where
    k: "build_filter_chain f =
            Some (if f > 2 then replicate k 2 @ [f / 2 ^ k]
                  else if f < 1 / 2 then replicate k (1 / 2) @ [f * 2 ^ k]
                  else [f])"
    by blast
  have "prod_list (if f > 2 then replicate k 2 @ [f / 2 ^ k]
                  else if f < 1 / 2 then replicate k (1 / 2) @ [f * 2 ^ k]
                  else [f]) = f"
    by (simp add: power_divide)
  with k show ?thesis by simp
qed

theorem filter_chain_product_witness:
  "(0::real) < 100 \<and> (100::real) \<noteq> 1
     \<and> build_filter_chain 100 = Some [2, 2, 2, 2, 2, 2, 25 / 16]
     \<and> (\<exists>chain. build_filter_chain 100 = Some chain \<and> prod_list chain = 100
           \<and> \<bar>prod_list chain - 100\<bar> \<le> 1 / 10 ^ 6)"
  using filter_chain_product [of 100] by (simp add: build_filter_chain_def)

text \<open>
  Claim C4. For every speed factor strictly greater than \<open>0\<close>, every stage multiplier of the
  chain lies in the closed interval \<open>[0.5, 2.0]\<close>.
\<close>

theorem filter_chain_stage_range:
  assumes "0 < f"
  shows "\<exists>chain. build_filter_chain f = Some chain \<and> (\<forall>s\<in>set chain. 1 / 2 \<le> s \<and> s \<le> 2)"
proof -
  from build_filter_chain_form [OF assms] obtain k where
    k: "build_filter_chain f =
            Some (if f > 2 then replicate k 2 @ [f / 2 ^ k]
                  else if f < 1 / 2 then replicate k (1 / 2) @ [f * 2 ^ k]
                  else [f])"
      "2 < f \<longrightarrow> 0 < k \<and> 1 < f / 2 ^ k \<and> f / 2 ^ k \<le> 2"
      "f < 1 / 2 \<longrightarrow> 0 < k \<and> 1 / 2 \<le> f * 2 ^ k \<and> f * 2 ^ k < 1"
    by blast
  have "\<forall>s\<in>set (if f > 2 then replicate k 2 @ [f / 2 ^ k]
                  else if f < 1 / 2 then replicate k (1 / 2) @ [f * 2 ^ k]
                  else [f]). 1 / 2 \<le> s \<and> s \<le> 2"
    using k(2,3) by auto
  with k(1) show ?thesis by simp
qed

theorem filter_chain_stage_range_witness:
  "(0::real) < 1 / 10 \<and> build_filter_chain (1 / 10) = Some [1 / 2, 1 / 2, 1 / 2, 4 / 5]
     \<and> (\<exists>chain. build_filter_chain (1 / 10) = Some chain
           \<and> list_all (\<lambda>s. 1 / 2 \<le> s \<and> s \<le> 2) chain)"
  using filter_chain_stage_range [of "1 / 10"]
  by (simp add: build_filter_chain_def slow_loop.simps list_all_iff)

text \<open>
  The loops on the reals. Each iteration appends exactly one stage to the chain, which
  starts empty, so the chain at the exit of a loop is \<open>k\<close> copies of the stage value for
  \<open>k\<close> iterations; and \<open>k\<close> is at most \<open>|log\<^sub>2 factor|\<close>.
\<close>

lemma real_loops_bound:
  assumes "0 < f"
  shows "(\<exists>k r. fast_loop f [] = (r, replicate k 2) \<and> real k \<le> \<bar>log 2 f\<bar>)
       \<and> (\<exists>k r. slow_loop f [] = Some (r, replicate k (1 / 2)) \<and> real k \<le> \<bar>log 2 f\<bar>)"
proof
  from fast_loop_unfold [of f "[]"] obtain k where
    k: "fast_loop f [] = (f / 2 ^ k, [] @ replicate k 2)" "0 < k \<longrightarrow> 1 < f / 2 ^ k"
    by blast
  have "real k \<le> \<bar>log 2 f\<bar>"
  proof (cases "0 < k")
    case True
    with k(2) have "2 ^ k < f" by (simp add: pos_less_divide_eq)
    then have "real k < log 2 f" by (rule less_log_of_power) simp
    then show ?thesis by simp
  next
    case False
    then show ?thesis by simp
  qed
  with k(1) show "\<exists>k r. fast_loop f [] = (r, replicate k 2) \<and> real k \<le> \<bar>log 2 f\<bar>"
    by auto
next
  from slow_loop_total [OF assms, of "[]"] obtain k where
    k: "slow_loop f [] = Some (f * 2 ^ k, [] @ replicate k (1 / 2))" "0 < k \<longrightarrow> f * 2 ^ k < 1"
    by blast
  have "real k \<le> \<bar>log 2 f\<bar>"
  proof (cases "0 < k")
    case True
    with k(2) have "2 ^ k < 1 / f" using assms by (simp add: pos_less_divide_eq mult.commute)
    then have "real k < log 2 (1 / f)" by (rule less_log_of_power) simp
    also have "log 2 (1 / f) = - log 2 f" using assms by (simp add: log_divide)
    finally show ?thesis by simp
  next
    case False
    then show ?thesis by simp
  qed
  with k(1) show "\<exists>k r. slow_loop f [] = Some (r, replicate k (1 / 2)) \<and> real k \<le> \<bar>log 2 f\<bar>"
    by auto
qed

text \<open>On a finite value the loops on floats are the loops on the reals.\<close>

lemma fast_loop_float_finite:
  "fast_loop_float (Finite r) c = Some (Finite (fst (fast_loop r c)), snd (fast_loop r c))"
proof (induction r c rule: fast_loop.induct)
  case (1 r c)
  show ?case
  proof (cases "2 < r")
    case True
    then have "fast_loop_float (Finite r) c = fast_loop_float (Finite (r / 2)) (c @ [2])"
      by (subst fast_loop_float.simps) simp
    with 1 [OF True] True show ?thesis by simp
  next
    case False
    then show ?thesis by (subst fast_loop_float.simps) simp
  qed
qed

lemma slow_loop_float_finite:
  "0 < r \<Longrightarrow> 1 / 2 \<le> r * 2 ^ n \<Longrightarrow>
     slow_loop_float (Finite r) c =
       (case slow_loop r c of None \<Rightarrow> None | Some (r', c') \<Rightarrow> Some (Finite r', c'))"
proof (induction n arbitrary: r c)
  case 0
  then have "\<not> r < 1 / 2" by simp
  then show ?case
    by (subst slow_loop_float.simps, subst slow_loop.simps) simp
next
  case (Suc n)
  show ?case
  proof (cases "r < 1 / 2")
    case False
    then show ?thesis by (subst slow_loop_float.simps, subst slow_loop.simps) simp
  next
    case True
    have pos: "0 < r * 2" using Suc.prems(1) by simp
    have bound: "1 / 2 \<le> r * 2 * 2 ^ n" using Suc.prems(2) by (simp add: mult.assoc)
    have a: "slow_loop_float (Finite r) c = slow_loop_float (Finite (r * 2)) (c @ [1 / 2])"
      using True by (subst slow_loop_float.simps) simp
    have b: "slow_loop r c = slow_loop (r * 2) (c @ [1 / 2])"
      using True by (subst slow_loop.simps) simp
    show ?thesis unfolding a b by (rule Suc.IH [OF pos bound])
  qed
qed

lemma fast_loop_float_returns_finite:
  assumes "fast_loop_float x c = Some y"
  shows "x \<noteq> PosInf"
proof (rule fast_loop_float.raw_induct [where P = "\<lambda>r c y. r \<noteq> PosInf", OF _ assms])
  fix loop :: "pyfloat \<Rightarrow> real list \<Rightarrow> (pyfloat \<times> real list) option"
    and r :: pyfloat and c :: "real list" and y :: "pyfloat \<times> real list"
  assume IH: "\<And>r c y. loop r c = Some y \<Longrightarrow> r \<noteq> PosInf"
    and step: "(if float_gt r 2 then loop (float_div r 2) (c @ [2]) else Some (r, c)) = Some y"
  show "r \<noteq> PosInf"
  proof
    assume "r = PosInf"
    with step have "loop PosInf (c @ [2]) = Some y" by simp
    from IH [OF this] show False by simp
  qed
qed

text \<open>
  Claim C5, as stated, fails: \<open>+inf\<close> is a speed factor strictly greater than \<open>0\<close>, and on
  it the loop of lines 247-249 never exits (\<open>inf / 2.0\<close> is \<open>inf\<close>, and there is no cap on
  the iterations).
\<close>

theorem planner_loop_diverges_at_infinity:
  "float_gt PosInf 0 \<and> fast_loop_float PosInf [] = None"
proof -
  have "fast_loop_float PosInf [] = None"
  proof (cases "fast_loop_float PosInf []")
    case (Some y)
    from fast_loop_float_returns_finite [OF this] show ?thesis by simp
  qed simp
  then show ?thesis by simp
qed

text \<open>
  Claim C5, amended. For every finite speed factor strictly greater than \<open>0\<close> both
  decomposition loops return, after at most \<open>|log\<^sub>2 factor|\<close> iterations.
\<close>

theorem planner_loops_terminate_finite:
  assumes "0 < f"
  shows "(\<exists>k r. fast_loop_float (Finite f) [] = Some (Finite r, replicate k 2)
              \<and> real k \<le> \<bar>log 2 f\<bar>)
       \<and> (\<exists>k r. slow_loop_float (Finite f) [] = Some (Finite r, replicate k (1 / 2))
              \<and> real k \<le> \<bar>log 2 f\<bar>)"
proof
  from real_loops_bound [OF assms] obtain k r where
    "fast_loop f [] = (r, replicate k 2)" "real k \<le> \<bar>log 2 f\<bar>"
    by blast
  then show "\<exists>k r. fast_loop_float (Finite f) [] = Some (Finite r, replicate k 2)
              \<and> real k \<le> \<bar>log 2 f\<bar>"
    by (auto simp: fast_loop_float_finite)
next
  from real_loops_bound [OF assms] obtain k r where
    kr: "slow_loop f [] = Some (r, replicate k (1 / 2))" "real k \<le> \<bar>log 2 f\<bar>"
    by blast
  from slow_loop_reaches [OF assms] obtain n where "1 / 2 \<le> f * 2 ^ n" ..
  from slow_loop_float_finite [OF assms this, of "[]"] kr(1)
  have "slow_loop_float (Finite f) [] = Some (Finite r, replicate k (1 / 2))" by simp
  with kr(2) show "\<exists>k r. slow_loop_float (Finite f) [] = Some (Finite r, replicate k (1 / 2))
              \<and> real k \<le> \<bar>log 2 f\<bar>"
    by blast
qed

theorem planner_loops_terminate_finite_witness:
  "(0::real) < 1 / 10
     \<and> fast_loop_float (Finite 100) [] = Some (Finite (25 / 16), [2, 2, 2, 2, 2, 2])
     \<and> slow_loop_float (Finite (1 / 10)) [] = Some (Finite (4 / 5), [1 / 2, 1 / 2, 1 / 2])
     \<and> (\<exists>k r. fast_loop_float (Finite (1 / 10)) [] = Some (Finite r, replicate k 2)
              \<and> real k \<le> \<bar>log 2 (1 / 10)\<bar>)
     \<and> (\<exists>k r. slow_loop_float (Finite (1 / 10)) [] = Some (Finite r, replicate k (1 / 2))
              \<and> real k \<le> \<bar>log 2 (1 / 10)\<bar>)"
  using planner_loops_terminate_finite [of "1 / 10"]
  by (simp add: fast_loop_float.simps slow_loop_float.simps)

section \<open>The pipeline\<close>

lemmas pipeline_defs =
  main_def main_body_def extract_audio_def transcribe_audio_def translate_text_def
  translate_english_to_thai_google_def thai_translation_def manual_translation_def
  has_thai_def is_thai_def text_to_speech_def synthesize_and_adjust_def adjust_speed_def
  apply_filter_def rubberband_fallback_def verify_final_duration_def truncate_audio_def
  replace_audio_def run_ffmpeg_def os_rename_def os_remove_def log_event_def
  calculate_optimal_speed_def build_filter_chain_def
  audio_wav_def thai_mp3_def temp_mp3_def temp_truncate_def manual_file_def

subsection \<open>The trace of each step\<close>

lemma muxed_audio_append: "muxed_audio (xs @ ys) = muxed_audio xs @ muxed_audio ys"
  by (induction xs rule: muxed_audio.induct) simp_all

lemma truncate_audio_trim_failed:
  assumes "ffmpeg_trim env = NonZero x" and "truncate_audio env v st = (r, st')"
  shows "(r = None \<and> files st thai_mp3 \<noteq> None \<and> files st' thai_mp3 = files st thai_mp3
            \<and> trace st' = trace st @ [Trim v (files st thai_mp3)])
         \<or> (r \<noteq> None \<and> trace st' = trace st)"
  using assms
  by (cases x)
     (auto simp: truncate_audio_def os_rename_def run_ffmpeg_def log_event_def
        thai_mp3_def temp_truncate_def split: option.splits)

lemma verify_final_duration_trim_failed:
  assumes "ffmpeg_trim env = NonZero x" and "verify_final_duration env vd st = (r, st')"
  shows "trace st' = trace st
         \<or> (\<exists>v. r = None \<and> files st thai_mp3 \<noteq> None \<and> files st' thai_mp3 = files st thai_mp3
            \<and> trace st' = trace st @ [Trim v (files st thai_mp3)])"
  using assms truncate_audio_trim_failed [OF assms(1)]
  by (fastforce simp: verify_final_duration_def split: option.splits if_splits)


lemma rubberband_fallback_trace:
  assumes "rubberband_fallback env f st = (r, st')"
  shows "trace st' = trace st @ [Rubberband f (files st temp_mp3)]"
  using assms
  by (auto simp: rubberband_fallback_def os_rename_def os_remove_def run_ffmpeg_def
        log_event_def split: option.splits proc_result.splits)

lemma apply_filter_trim_failed:
  assumes "ffmpeg_trim env = NonZero x" and "apply_filter env chain f vd st = (r, st')"
  shows "\<exists>evs. trace st' = trace st @ evs \<and> muxed_audio evs = []
           \<and> (\<forall>v a. Trim v a \<in> set evs \<longrightarrow>
                 r = None \<and> files st' thai_mp3 = a \<and> (\<exists>c. ffmpeg_atempo env = Exit0 c \<and> a = Some c))"
proof (cases "ffmpeg_atempo env")
  case (NonZero y)
  obtain st1 where st1: "run_ffmpeg (ffmpeg_atempo env) thai_mp3
      (log_event (Atempo chain (files st temp_mp3)) st) = (False, st1)"
    and tr1: "trace st1 = trace st @ [Atempo chain (files st temp_mp3)]"
    using NonZero by (cases y) (simp_all add: run_ffmpeg_def log_event_def)
  from assms(2) st1 have "rubberband_fallback env f st1 = (r, st')"
    by (simp add: apply_filter_def)
  from rubberband_fallback_trace [OF this] tr1
  have "trace st' = trace st @ [Atempo chain (files st temp_mp3), Rubberband f (files st1 temp_mp3)]"
    by simp
  then show ?thesis by (intro exI [of _ "[Atempo chain (files st temp_mp3), Rubberband f (files st1 temp_mp3)]"]) simp
next
  case (Exit0 c)
  define st1 where "st1 = (log_event (Atempo chain (files st temp_mp3)) st)\<lparr>files :=
      (files (log_event (Atempo chain (files st temp_mp3)) st))(thai_mp3 \<mapsto> c)\<rparr>"
  have run: "run_ffmpeg (ffmpeg_atempo env) thai_mp3
      (log_event (Atempo chain (files st temp_mp3)) st) = (True, st1)"
    using Exit0 by (simp add: run_ffmpeg_def st1_def)
  have tr1: "trace st1 = trace st @ [Atempo chain (files st temp_mp3)]"
    and f1: "files st1 thai_mp3 = Some c"
    by (simp_all add: st1_def log_event_def)
  show ?thesis
  proof (cases "files st1 temp_mp3")
    case None
    then have "apply_filter env chain f vd st = (Some FileNotFoundError, st1)"
      using run by (simp add: apply_filter_def os_remove_def)
    with assms(2) tr1 show ?thesis
      by (intro exI [of _ "[Atempo chain (files st temp_mp3)]"]) simp
  next
    case (Some d)
    define st2 where "st2 = st1\<lparr>files := (files st1)(temp_mp3 := None)\<rparr>"
    have rm: "os_remove temp_mp3 st1 = (None, st2)"
      using Some by (simp add: os_remove_def st2_def)
    have tr2: "trace st2 = trace st @ [Atempo chain (files st temp_mp3)]"
      and f2: "files st2 thai_mp3 = Some c"
      using tr1 f1 by (simp_all add: st2_def thai_mp3_def temp_mp3_def)
    from assms(2) run rm have v: "verify_final_duration env vd st2 = (r, st')"
      by (simp add: apply_filter_def)
    from verify_final_duration_trim_failed [OF assms(1) v]
    show ?thesis
    proof
      assume "trace st' = trace st2"
      with tr2 show ?thesis
        by (intro exI [of _ "[Atempo chain (files st temp_mp3)]"]) simp
    next
      assume "\<exists>v. r = None \<and> files st2 thai_mp3 \<noteq> None \<and> files st' thai_mp3 = files st2 thai_mp3
            \<and> trace st' = trace st2 @ [Trim v (files st2 thai_mp3)]"
      then obtain v where "r = None" "files st' thai_mp3 = Some c"
        "trace st' = trace st @ [Atempo chain (files st temp_mp3), Trim v (Some c)]"
        using tr2 f2 by auto
      then show ?thesis using Exit0
        by (intro exI [of _ "[Atempo chain (files st temp_mp3), Trim v (Some c)]"]) simp
    qed
  qed
qed

lemma adjust_speed_trim_failed:
  assumes "ffmpeg_trim env = NonZero x" and "adjust_speed env f vd st = Some (r, st')"
  shows "\<exists>evs. trace st' = trace st @ evs \<and> muxed_audio evs = []
           \<and> (\<forall>v a. Trim v a \<in> set evs \<longrightarrow>
                 r = None \<and> files st' thai_mp3 = a \<and> (\<exists>c. ffmpeg_atempo env = Exit0 c \<and> a = Some c))"
proof (cases "f \<noteq> 1 \<and> files st thai_mp3 \<noteq> None")
  case False
  then have "trace st' = trace st @ []"
    using assms(2) by (auto simp: adjust_speed_def os_rename_def split: if_splits)
  then show ?thesis by (intro exI [of _ "[]"]) simp
next
  case True
  then obtain d where d: "files st thai_mp3 = Some d" by blast
  define st1 where "st1 = st\<lparr>files := ((files st)(thai_mp3 := None))(temp_mp3 \<mapsto> d)\<rparr>"
  have rn: "os_rename thai_mp3 temp_mp3 st = (None, st1)"
    using d by (simp add: os_rename_def st1_def)
  have tr1: "trace st1 = trace st" by (simp add: st1_def)
  from assms(2) True rn obtain chain where "apply_filter env chain f vd st1 = (r, st')"
    by (auto simp: adjust_speed_def split: option.splits)
  from apply_filter_trim_failed [OF assms(1) this] tr1 show ?thesis by simp
qed

lemma synthesize_and_adjust_trim_failed:
  assumes "ffmpeg_trim env = NonZero x" and "synthesize_and_adjust env thai_text st = Some (r, st')"
  shows "\<exists>evs. trace st' = trace st @ evs \<and> muxed_audio evs = []
           \<and> (\<forall>v a. Trim v a \<in> set evs \<longrightarrow>
                 r = None \<and> files st' thai_mp3 = a \<and> (\<exists>c. ffmpeg_atempo env = Exit0 c \<and> a = Some c))"
proof (cases "ffprobe_video env")
  case None
  with assms(2) have "trace st' = trace st @ []" by (simp add: synthesize_and_adjust_def)
  then show ?thesis by (intro exI [of _ "[]"]) simp
next
  case (Some vd)
  obtain r1 st1 where tts: "text_to_speech env thai_text thai_mp3 st = (r1, st1)"
    by (cases "text_to_speech env thai_text thai_mp3 st")
  then obtain evs1 where tr1: "trace st1 = trace st @ evs1" "muxed_audio evs1 = []"
      "\<forall>v a. Trim v a \<notin> set evs1"
    by (auto simp: text_to_speech_def log_event_def Let_def split: option.splits)
  show ?thesis
  proof (cases "r1 = None \<and> ffprobe_tts env \<noteq> None")
    case False
    with assms(2) Some tts have "st' = st1"
      by (auto simp: synthesize_and_adjust_def Let_def split: option.splits)
    with tr1 show ?thesis by (intro exI [of _ evs1]) simp
  next
    case True
    with assms(2) Some tts have
      "adjust_speed env (calculate_optimal_speed (ffprobe_video env) (ffprobe_tts env))
          (ffprobe_video env) st1 = Some (r, st')"
      by (auto simp: synthesize_and_adjust_def Let_def split: option.splits)
    from adjust_speed_trim_failed [OF assms(1) this] obtain evs where
      evs: "trace st' = trace st1 @ evs" "muxed_audio evs = []"
        "\<forall>v a. Trim v a \<in> set evs \<longrightarrow>
                 r = None \<and> files st' thai_mp3 = a \<and> (\<exists>c. ffmpeg_atempo env = Exit0 c \<and> a = Some c)"
      by blast
    show ?thesis using evs tr1
      by (intro exI [of _ "evs1 @ evs"]) (auto simp: muxed_audio_append)
  qed
qed

lemma extract_audio_trace:
  "extract_audio env st = (b, st1) \<Longrightarrow> trace st1 = trace st @ [Extract (input_video env)]"
  by (auto simp: extract_audio_def run_ffmpeg_def log_event_def split: proc_result.splits option.splits)

lemma thai_translation_trace:
  "thai_translation env english st = (t, st1) \<Longrightarrow>
     (t = None \<and> trace st1 = trace st @ [PrintInstructions]) \<or> (t \<noteq> None \<and> st1 = st)"
  by (auto simp: thai_translation_def log_event_def Let_def split: option.splits if_splits)

lemma replace_audio_result:
  "replace_audio env st = (b, st1) \<Longrightarrow>
     trace st1 = trace st @ [Mux (input_video env) (files st thai_mp3) (output_video env)]
     \<and> b = (case ffmpeg_mux env of Exit0 c \<Rightarrow> True | NonZero y \<Rightarrow> False)"
  by (auto simp: replace_audio_def run_ffmpeg_def log_event_def split: proc_result.splits option.splits)

text \<open>
  Claim C8. If the trim call of line 299 fails in a run of \<open>main\<close> that attempts the
  truncation, the speed-adjusted track (what the atempo run produced, and what the trim call
  was given) is back under \<open>thai.mp3\<close>: it is the audio handed to the mux, and the run ends
  as the mux does, completed unless the mux itself fails.
\<close>

theorem truncation_failure_not_fatal:
  assumes "main env fs = Some (s, fs', tr)"
    and "ffmpeg_trim env = NonZero x"
    and "Trim v a \<in> set tr"
  shows "\<exists>c. ffmpeg_atempo env = Exit0 c \<and> a = Some c \<and> muxed_audio tr = [Some c]
           \<and> s = (case ffmpeg_mux env of Exit0 out \<Rightarrow> Completed
                                        | NonZero y \<Rightarrow> Raised CalledProcessError)"
proof -
  define st0 :: state where
    "st0 = \<lparr>files = (\<lambda>p. case p of InTmpdir n \<Rightarrow> None | Outside n \<Rightarrow> fs n), trace = []\<rparr>"
  from assms(1) obtain st where body: "main_body env st0 = Some (s, st)" and tr: "tr = trace st"
    by (auto simp: main_def st0_def split: option.splits)
  obtain b st1 where ex: "extract_audio env st0 = (b, st1)" by (cases "extract_audio env st0")
  from extract_audio_trace [OF ex] have tr1: "trace st1 = [Extract (input_video env)]"
    by (simp add: st0_def)
  have b: b
  proof (rule ccontr)
    assume "\<not> b"
    with body ex have "st = st1" by (simp add: main_body_def)
    with tr tr1 assms(3) show False by simp
  qed
  define english where "english = translate_text env (transcribe_audio env)"
  obtain t st2 where th: "thai_translation env english st1 = (t, st2)"
    by (cases "thai_translation env english st1")
  have "t \<noteq> None"
  proof
    assume "t = None"
    with body ex b th have "st = st2" by (simp add: main_body_def english_def)
    moreover from thai_translation_trace [OF th] \<open>t = None\<close> tr1
    have "trace st2 = [Extract (input_video env), PrintInstructions]" by simp
    ultimately show False using tr assms(3) by simp
  qed
  then obtain thai_text where t: "t = Some thai_text" by blast
  with thai_translation_trace [OF th] have st2: "st2 = st1" by simp
  from body ex b th t obtain r st3 where
    sa: "synthesize_and_adjust env thai_text st2 = Some (r, st3)"
    by (auto simp: main_body_def english_def split: option.splits)
  from synthesize_and_adjust_trim_failed [OF assms(2) sa] obtain evs where
    evs: "trace st3 = trace st2 @ evs" "muxed_audio evs = []"
      "\<forall>v a. Trim v a \<in> set evs \<longrightarrow>
          r = None \<and> files st3 thai_mp3 = a \<and> (\<exists>c. ffmpeg_atempo env = Exit0 c \<and> a = Some c)"
    by blast
  have "r = None \<and> Trim v a \<in> set evs"
  proof (cases r)
    case (Some e)
    with body ex b th t sa have "st = st3" by (simp add: main_body_def english_def)
    with tr evs(1) st2 tr1 assms(3) have "Trim v a \<in> set evs" by simp
    with evs(3) Some show ?thesis by auto
  next
    case None
    obtain b4 st4 where ra: "replace_audio env st3 = (b4, st4)" by (cases "replace_audio env st3")
    with body ex b th t sa None have "st = st4"
      by (auto simp: main_body_def english_def split: bool.splits)
    with replace_audio_result [OF ra] tr evs(1) st2 tr1 assms(3) have "Trim v a \<in> set evs" by simp
    with None show ?thesis by simp
  qed
  then have r: "r = None" and "Trim v a \<in> set evs" by simp_all
  with evs(3) obtain c where c: "files st3 thai_mp3 = a" "ffmpeg_atempo env = Exit0 c" "a = Some c"
    by blast
  obtain b4 st4 where ra: "replace_audio env st3 = (b4, st4)" by (cases "replace_audio env st3")
  from body ex b th t sa r ra have fin: "st = st4"
      "s = (if b4 then Completed else Raised CalledProcessError)"
    by (auto simp: main_body_def english_def split: bool.splits)
  from replace_audio_result [OF ra] fin(1) tr evs(1,2) st2 tr1 c
  have "muxed_audio tr = [Some c]" by (simp add: muxed_audio_append)
  moreover from replace_audio_result [OF ra] fin(2)
  have "s = (case ffmpeg_mux env of Exit0 out \<Rightarrow> Completed | NonZero y \<Rightarrow> Raised CalledProcessError)"
    by (auto split: proc_result.splits)
  ultimately show ?thesis using c by blast
qed

theorem truncation_failure_not_fatal_witness:
  "main (sample_env\<lparr>ffprobe_tts := Some 1, ffprobe_adjusted := Some 20,
                     ffmpeg_trim := NonZero (Some [9])\<rparr>) Map.empty =
     Some (Completed, [''out.mp4'' \<mapsto> [6]],
       [Extract ''in.mp4'', Synthesize [3626, 3623, 3633],
        Atempo [1 / 2, 1 / 2, 1 / 2, 4 / 5] (Some [2]), Trim 10 (Some [3]),
        Mux ''in.mp4'' (Some [3]) ''out.mp4''])
   \<and> (\<exists>c. ffmpeg_atempo sample_env = Exit0 c \<and> Some [3] = Some c
         \<and> muxed_audio [Extract ''in.mp4'', Synthesize [3626, 3623, 3633],
               Atempo [1 / 2, 1 / 2, 1 / 2, 4 / 5] (Some [2]), Trim 10 (Some [3]),
               Mux ''in.mp4'' (Some [3]) ''out.mp4''] = [Some c])"
proof -
  have run: "main (sample_env\<lparr>ffprobe_tts := Some 1, ffprobe_adjusted := Some 20,
                     ffmpeg_trim := NonZero (Some [9])\<rparr>) Map.empty =
     Some (Completed, [''out.mp4'' \<mapsto> [6]],
       [Extract ''in.mp4'', Synthesize [3626, 3623, 3633],
        Atempo [1 / 2, 1 / 2, 1 / 2, 4 / 5] (Some [2]), Trim 10 (Some [3]),
        Mux ''in.mp4'' (Some [3]) ''out.mp4''])"
    by (simp add: sample_env_def pipeline_defs fun_eq_iff slow_loop.simps)
  from truncation_failure_not_fatal [OF run, of "Some [9]" 10 "Some [3]"] run
  show ?thesis by (simp add: sample_env_def)
qed

subsection \<open>Unit factor, failing filters, missing translation\<close>





text \<open>
  Claim C7. If the atempo run and the rubberband run both fail, then whatever they left at the
  output path, after lines 234-342 the file \<open>thai.mp3\<close> holds what it held before, the
  temporary copy is gone and no other file has changed; the run goes on (no exception).
\<close>

theorem both_filters_fail_restores:
  assumes "0 < speed_factor" and "speed_factor \<noteq> 1"
    and "ffmpeg_atempo env = NonZero x" and "ffmpeg_rubberband env = NonZero y"
    and "files st thai_mp3 = Some c"
  shows "\<exists>chain st'. build_filter_chain speed_factor = Some chain
           \<and> adjust_speed env speed_factor video_duration st = Some (None, st')
           \<and> files st' = (files st)(temp_mp3 := None)
           \<and> files st' thai_mp3 = Some c
           \<and> trace st' = trace st @ [Atempo chain (Some c), Rubberband speed_factor (Some c)]"
proof -
  from build_filter_chain_form [OF assms(1)] obtain chain where
    chain: "build_filter_chain speed_factor = Some chain"
    by blast
  have ne: "thai_mp3 \<noteq> temp_mp3" by (simp add: thai_mp3_def temp_mp3_def)
  show ?thesis
    using assms(2-5) chain ne
    by (cases x; cases y)
       (auto simp: adjust_speed_def apply_filter_def rubberband_fallback_def os_rename_def
          run_ffmpeg_def log_event_def fun_eq_iff)
qed

theorem both_filters_fail_restores_witness:
  "(0::real) < 2 \<and> (2::real) \<noteq> 1
   \<and> adjust_speed (sample_env\<lparr>ffmpeg_atempo := NonZero (Some [7]), ffmpeg_rubberband := NonZero None\<rparr>)
        2 (Some 10) \<lparr>files = [thai_mp3 \<mapsto> [2]], trace = []\<rparr>
      = Some (None, \<lparr>files = [thai_mp3 \<mapsto> [2]],
                      trace = [Atempo [2] (Some [2]), Rubberband 2 (Some [2])]\<rparr>)"
  using both_filters_fail_restores [of 2
      "sample_env\<lparr>ffmpeg_atempo := NonZero (Some [7]), ffmpeg_rubberband := NonZero None\<rparr>"
      "Some [7]" None "\<lparr>files = [thai_mp3 \<mapsto> [2]], trace = []\<rparr>" "[2]" "Some 10"]
  by (simp add: sample_env_def pipeline_defs fun_eq_iff)

text \<open>
  Claim C9. If no manual translation file is used and the automatically translated text has
  no Thai character, \<open>main\<close> writes the English text to \<open>english_for_translation.txt\<close>,
  prints the instructions and returns: no synthesis, no rate adjustment, no mux.
\<close>

theorem no_thai_text_returns:
  assumes "ffmpeg_extract env = Exit0 a"
    and "\<forall>p. thai_file env = Some p \<longrightarrow> p = [] \<or> fs p = None"
    and "\<not> has_thai (translate_english_to_thai_google env (translate_text env (transcribe_audio env)))"
  shows "main env fs =
           Some (Returned,
                 fs(''english_for_translation.txt'' \<mapsto> translate_text env (transcribe_audio env)),
                 [Extract (input_video env), PrintInstructions])"
proof -
  have "manual_translation env st = None" if "\<forall>n. files st (Outside n) = fs n" for st
    using assms(2) that by (auto simp: manual_translation_def split: option.splits)
  then show ?thesis
    using assms(1,3)
    by (simp add: main_def main_body_def extract_audio_def run_ffmpeg_def log_event_def
        thai_translation_def manual_file_def audio_wav_def fun_eq_iff)
qed

theorem no_thai_text_returns_witness:
  "main (sample_env\<lparr>google_en_th := None\<rparr>) Map.empty =
     Some (Returned, [''english_for_translation.txt'' \<mapsto> [72, 105]],
           [Extract ''in.mp4'', PrintInstructions])"
  using no_thai_text_returns [of "sample_env\<lparr>google_en_th := None\<rparr>" "[1]" Map.empty]
  by (simp add: sample_env_def translate_english_to_thai_google_def translate_text_def
      transcribe_audio_def has_thai_def is_thai_def)

text \<open>
  Claim C3 fails on the code. When the probe of the video returns \<open>None\<close>, line 223 formats
  \<open>None\<close> with \<open>:.1f\<close> and raises \<open>TypeError\<close>: the run ends there, before synthesis, planning
  and mux (and likewise at line 228 when the probe of the synthesized audio returns \<open>None\<close>).
  The pieces themselves do what the claim says: the factor for an unknown duration is
  \<open>1.5\<close>, and its chain is \<open>[1.5]\<close>.
\<close>

theorem failed_video_probe_aborts:
  "main (sample_env\<lparr>ffprobe_video := None\<rparr>) Map.empty =
     Some (Raised TypeError, Map.empty, [Extract ''in.mp4''])
   \<and> main (sample_env\<lparr>ffprobe_tts := None\<rparr>) Map.empty =
     Some (Raised TypeError, Map.empty, [Extract ''in.mp4'', Synthesize [3626, 3623, 3633]])
   \<and> calculate_optimal_speed None (Some 20) = 3 / 2
   \<and> build_filter_chain (3 / 2) = Some [3 / 2]"
  by (simp add: sample_env_def pipeline_defs fun_eq_iff)

text \<open>
  Claim C10 fails on the code in its \<open>None\<close> case. When the reprobe after a successful atempo
  run returns \<open>None\<close>, line 282 raises \<open>TypeError\<close> before the guard of line 285 is reached:
  the run ends without a mux. With a reprobed duration of \<open>0.0\<close> the guard is false and the
  candidate track goes to the mux with no truncation attempt.
\<close>

theorem failed_reprobe_aborts:
  "main (sample_env\<lparr>ffprobe_adjusted := None\<rparr>) Map.empty =
     Some (Raised TypeError, Map.empty,
           [Extract ''in.mp4'', Synthesize [3626, 3623, 3633], Atempo [2] (Some [2])])
   \<and> main (sample_env\<lparr>ffprobe_adjusted := Some 0\<rparr>) Map.empty =
     Some (Completed, [''out.mp4'' \<mapsto> [6]],
           [Extract ''in.mp4'', Synthesize [3626, 3623, 3633], Atempo [2] (Some [2]),
            Mux ''in.mp4'' (Some [3]) ''out.mp4''])"
  by (simp add: sample_env_def pipeline_defs fun_eq_iff)

end
